theory Spec2Isabelle
  imports Main "HOL-Library.AList"
begin

section \<open>Values\<close>

text \<open>
  The transformers of \<^verbatim>\<open>granary/as2.py\<close> work on decoded JSON: \<^verbatim>\<open>None\<close>, booleans,
  numbers, strings, lists and dicts with string keys. A dict is an association list;
  lookup reads the first entry of a key, \<open>AList.update\<close> overwrites it in place or appends,
  \<open>AList.delete\<close> removes every entry of a key.
\<close>

datatype json =
    JNull
  | JBool bool
  | JNum int
  | JStr string
  | JList "json list"
  | JDict "(string \<times> json) list"

type_synonym dict = "(string \<times> json) list"

text \<open>
  \<open>delete_id\<close> makes the simplifier look for the removed key in the whole list at every
  removal; the proofs below go through lookups instead.
\<close>

declare AList.delete_id [simp del]

text \<open>
  The exceptions the code can raise. \<open>ValueError\<close> is the one the transformers raise
  themselves (\<^verbatim>\<open>raise ValueError('Expected dict, got %r' % obj)\<close>); \<open>TypeError\<close> is
  Python's for an unhashable dict key and for iterating a value that is not iterable;
  \<open>AttributeError\<close> is Python's for \<^verbatim>\<open>.get\<close> on a value that has no such method.
\<close>

datatype error = ValueError | TypeError | AttributeError

text \<open>Python truth value: \<^verbatim>\<open>if obj\<close>, \<^verbatim>\<open>not obj\<close>, \<^verbatim>\<open>a or b\<close>.\<close>

fun truthy :: "json \<Rightarrow> bool" where
  "truthy JNull = False"
| "truthy (JBool b) = b"
| "truthy (JNum n) = (n \<noteq> 0)"
| "truthy (JStr s) = (s \<noteq> [])"
| "truthy (JList xs) = (xs \<noteq> [])"
| "truthy (JDict d) = (d \<noteq> [])"

text \<open>\<^verbatim>\<open>isinstance(val, basestring)\<close>\<close>

fun is_basestring :: "json \<Rightarrow> bool" where
  "is_basestring (JStr s) = True"
| "is_basestring v = False"

subsection \<open>Dict operations\<close>

text \<open>\<^verbatim>\<open>d.get(k, default)\<close> and \<^verbatim>\<open>d.get(k)\<close>, whose default is \<^verbatim>\<open>None\<close>.\<close>

definition dict_get_or :: "dict \<Rightarrow> string \<Rightarrow> json \<Rightarrow> json" where
  "dict_get_or d k dflt = (case map_of d k of None \<Rightarrow> dflt | Some v \<Rightarrow> v)"

definition dict_get :: "dict \<Rightarrow> string \<Rightarrow> json" where
  "dict_get d k = dict_get_or d k JNull"

text \<open>\<^verbatim>\<open>d.pop(k, None)\<close>: the value and the dict without the key.\<close>

definition dict_pop :: "dict \<Rightarrow> string \<Rightarrow> json \<times> dict" where
  "dict_pop d k = (dict_get d k, AList.delete k d)"

text \<open>\<^verbatim>\<open>d.update({k1: v1, ...})\<close>: the items are stored one after the other.\<close>

definition dict_update :: "dict \<Rightarrow> (string \<times> json) list \<Rightarrow> dict" where
  "dict_update d kvs = fold (\<lambda>kv acc. AList.update (fst kv) (snd kv) acc) kvs d"

text \<open>
  \<^verbatim>\<open>table.get(key)\<close> on one of the vocabulary tables, whose keys and values are strings.
  The key is whatever the input tree holds: a list or a dict is unhashable and
  \<^verbatim>\<open>dict.get\<close> raises \<open>TypeError\<close>; any other key that is not in the table gives \<^verbatim>\<open>None\<close>.
\<close>

definition table_get :: "(string \<times> string) list \<Rightarrow> json \<Rightarrow> error + json" where
  "table_get tbl key =
     (case key of
        JList xs \<Rightarrow> Inl TypeError
      | JDict d \<Rightarrow> Inl TypeError
      | JStr s \<Rightarrow> Inr (case map_of tbl s of None \<Rightarrow> JNull | Some v \<Rightarrow> JStr v)
      | _ \<Rightarrow> Inr JNull)"

text \<open>
  \<^verbatim>\<open>for x in val\<close>: a list gives its elements, a dict its keys, a string its characters
  (each a one-character string); \<^verbatim>\<open>None\<close>, a boolean or a number is not iterable.
\<close>

definition py_iter :: "json \<Rightarrow> error + json list" where
  "py_iter val =
     (case val of
        JList xs \<Rightarrow> Inr xs
      | JDict d \<Rightarrow> Inr (map (\<lambda>kv. JStr (fst kv)) d)
      | JStr s \<Rightarrow> Inr (map (\<lambda>c. JStr [c]) s)
      | _ \<Rightarrow> Inl TypeError)"

text \<open>\<^verbatim>\<open>orig.get(k)\<close> on an arbitrary value: only a dict has the method.\<close>

definition py_get :: "json \<Rightarrow> string \<Rightarrow> error + json" where
  "py_get orig k = (case orig of JDict d \<Rightarrow> Inr (dict_get d k) | _ \<Rightarrow> Inl AttributeError)"

subsection \<open>Exceptions as values\<close>

definition bind_err :: "error + 'a \<Rightarrow> ('a \<Rightarrow> error + 'b) \<Rightarrow> error + 'b" where
  "bind_err m f = (case m of Inl e \<Rightarrow> Inl e | Inr x \<Rightarrow> f x)"

text \<open>A list comprehension \<^verbatim>\<open>[f(x) for x in xs]\<close>: left to right, the first exception ends it.\<close>

fun mapM_err :: "('a \<Rightarrow> error + 'b) \<Rightarrow> 'a list \<Rightarrow> error + 'b list" where
  "mapM_err f [] = Inr []"
| "mapM_err f (x # xs) =
     bind_err (f x) (\<lambda>y. bind_err (mapM_err f xs) (\<lambda>ys. Inr (y # ys)))"

section \<open>The helpers of \<^verbatim>\<open>oauth_dropins.webutil.util\<close>\<close>

text \<open>
  Modelled from the spec: \<^verbatim>\<open>util.get_list\<close>, the non-destructive list read, is not part of
  the source file. The spec: the key's value normalized to an ordered list, absent gives
  the empty list, a single value a one-element list, a list itself unchanged.
\<close>

definition get_list :: "dict \<Rightarrow> string \<Rightarrow> json list" where
  "get_list obj key =
     (case map_of obj key of
        None \<Rightarrow> []
      | Some (JList xs) \<Rightarrow> xs
      | Some v \<Rightarrow> [v])"

text \<open>
  Modelled from the spec: \<^verbatim>\<open>util.pop_list\<close>, the list coercion, is not part of the source
  file. The spec: remove the key and return its value normalized as \<open>get_list\<close> does.
\<close>

definition pop_list :: "dict \<Rightarrow> string \<Rightarrow> json list \<times> dict" where
  "pop_list obj key = (get_list obj key, AList.delete key obj)"

text \<open>
  Modelled from the spec: \<^verbatim>\<open>util.trim_nulls\<close> is not part of the source file. The spec:
  recursively remove mapping keys whose value is null, the empty string, the empty list or
  the empty mapping, producing a minimal equivalent tree; applied to a list
  (\<^verbatim>\<open>inReplyTo\<close> in \<open>from_as1\<close>) it removes the null elements. The values are trimmed
  before they are tested, so that a value that trims to nothing goes as well.
\<close>

fun is_null :: "json \<Rightarrow> bool" where
  "is_null JNull = True"
| "is_null (JStr s) = (s = [])"
| "is_null (JList xs) = (xs = [])"
| "is_null (JDict d) = (d = [])"
| "is_null v = False"

lemma size_snd_less_dict [termination_simp]:
  "kv \<in> set d \<Longrightarrow> size (snd kv) < Suc (size_list (size_prod (\<lambda>k. 0) size) d)"
  by (induction d) (auto simp: less_Suc_eq)

fun trim_nulls :: "json \<Rightarrow> json" where
  "trim_nulls (JDict d) =
     JDict (filter (\<lambda>kv. \<not> is_null (snd kv)) (map (\<lambda>kv. (fst kv, trim_nulls (snd kv))) d))"
| "trim_nulls (JList xs) = JList (filter (\<lambda>v. \<not> is_null v) (map trim_nulls xs))"
| "trim_nulls v = v"

subsection \<open>Lookup after an update or a removal, and the size of what a lookup returns\<close>

lemma map_of_delete_key: "map_of (AList.delete k' d) k = (if k = k' then None else map_of d k)"
  by (simp add: delete_conv')

lemma map_of_update_key: "map_of (AList.update k' v d) k = (if k = k' then Some v else map_of d k)"
  by (simp add: update_conv')

lemma dict_get_delete [simp]:
  "dict_get (AList.delete k' d) k = (if k = k' then JNull else dict_get d k)"
  by (simp add: dict_get_def dict_get_or_def map_of_delete_key)

lemma dict_get_update [simp]:
  "dict_get (AList.update k' v d) k = (if k = k' then v else dict_get d k)"
  by (simp add: dict_get_def dict_get_or_def map_of_update_key)

lemma get_list_delete [simp]:
  "get_list (AList.delete k' d) k = (if k = k' then [] else get_list d k)"
  by (simp add: get_list_def map_of_delete_key)

lemma get_list_update [simp]:
  "k \<noteq> k' \<Longrightarrow> get_list (AList.update k' v d) k = get_list d k"
  by (simp add: get_list_def map_of_update_key)

lemma map_of_dict_update_other:
  "k \<notin> fst ` set kvs \<Longrightarrow> map_of (dict_update d kvs) k = map_of d k"
  unfolding dict_update_def
  by (induction kvs arbitrary: d) (auto simp: map_of_update_key)

lemma dict_get_dict_update_other:
  "k \<notin> fst ` set kvs \<Longrightarrow> dict_get (dict_update d kvs) k = dict_get d k"
  by (simp add: dict_get_def dict_get_or_def map_of_dict_update_other)

lemma get_list_dict_update_other:
  "k \<notin> fst ` set kvs \<Longrightarrow> get_list (dict_update d kvs) k = get_list d k"
  by (simp add: get_list_def map_of_dict_update_other)

text \<open>
  The recursive calls of the transformers take their arguments out of the dict they were
  given, after some keys were removed and some small values stored: every value of such a
  dict is smaller than the dict the call started from.
\<close>

definition vals_below :: "dict \<Rightarrow> nat \<Rightarrow> bool" where
  "vals_below d n = (\<forall>kv \<in> set d. size (snd kv) < n)"

lemma vals_below_dict: "vals_below d (size (JDict d))"
  by (simp add: vals_below_def size_snd_less_dict)

lemma vals_below_delete: "vals_below d n \<Longrightarrow> vals_below (AList.delete k d) n"
  by (auto simp: vals_below_def AList.delete_eq)

lemma vals_below_update:
  "vals_below d n \<Longrightarrow> size v < n \<Longrightarrow> vals_below (AList.update k v d) n"
  by (induction d) (auto simp: vals_below_def)

lemma vals_below_if:
  "vals_below a n \<Longrightarrow> vals_below b n \<Longrightarrow> vals_below (if c then a else b) n"
  by simp

lemma size_JStr_less: "size (JStr s) < size (JDict d)"
  by simp

lemma size_JNull_less: "size JNull < size (JDict d)"
  by simp

lemma dict_get_below: "vals_below d n \<Longrightarrow> 0 < n \<Longrightarrow> size (dict_get d k) < n"
  by (auto simp: vals_below_def dict_get_def dict_get_or_def split: option.splits
      dest!: map_of_SomeD)

lemma dict_get_below_dict:
  "vals_below d' (size (JDict d)) \<Longrightarrow> size (dict_get d' k) < size (JDict d)"
  by (rule dict_get_below) simp_all

lemma size_elem_less_list: "x \<in> set xs \<Longrightarrow> size x < Suc (size_list size xs)"
  by (induction xs) (auto simp: less_Suc_eq)

lemma get_list_below:
  assumes "x \<in> set (get_list d k)" and "vals_below d n"
  shows "size x < n"
proof (cases "map_of d k")
  case None
  with assms show ?thesis by (simp add: get_list_def)
next
  case (Some v)
  then have v: "size v < n"
    using assms(2) by (auto simp: vals_below_def dest!: map_of_SomeD)
  show ?thesis
  proof (cases v)
    case (JList xs)
    with assms Some have "x \<in> set xs" by (simp add: get_list_def)
    then have "size x < size v" using JList size_elem_less_list [of x xs] by simp
    with v show ?thesis by simp
  qed (use assms Some v in \<open>auto simp: get_list_def\<close>)
qed

lemma measure_step:
  "size x < size obj \<Longrightarrow> ((x, t, c), obj, t', c') \<in> measure (\<lambda>(obj, t, c). size obj)"
  by simp

lemmas below_intros =
  vals_below_dict vals_below_delete vals_below_update vals_below_if
  size_JStr_less size_JNull_less

section \<open>Vocabulary tables\<close>

definition CONTEXT :: string where
  "CONTEXT = ''https://www.w3.org/ns/activitystreams''"

text \<open>
  \<^verbatim>\<open>_invert\<close>: \<^verbatim>\<open>{v: k for k, v in d.items()}\<close>. The items are visited in the order the
  table lists them, and a later item overwrites an earlier one with the same value.
\<close>

definition invert :: "(string \<times> string) list \<Rightarrow> (string \<times> string) list" where
  "invert d = fold (\<lambda>kv acc. AList.update (snd kv) (fst kv) acc) d []"

definition OBJECT_TYPE_TO_TYPE :: "(string \<times> string) list" where
  "OBJECT_TYPE_TO_TYPE =
     [(''article'', ''Article''),
      (''audio'', ''Audio''),
      (''collection'', ''Collection''),
      (''comment'', ''Note''),
      (''event'', ''Event''),
      (''image'', ''Image''),
      (''note'', ''Note''),
      (''person'', ''Person''),
      (''place'', ''Place''),
      (''video'', ''Video'')]"

definition TYPE_TO_OBJECT_TYPE :: "(string \<times> string) list" where
  "TYPE_TO_OBJECT_TYPE = invert OBJECT_TYPE_TO_TYPE"

definition VERB_TO_TYPE :: "(string \<times> string) list" where
  "VERB_TO_TYPE =
     [(''favorite'', ''Favorite''),
      (''invite'', ''Invite''),
      (''like'', ''Like''),
      (''post'', ''Create''),
      (''rsvp-maybe'', ''TentativeAccept''),
      (''rsvp-no'', ''Reject''),
      (''rsvp-yes'', ''Accept''),
      (''share'', ''Announce''),
      (''tag'', ''Add''),
      (''update'', ''Update'')]"

definition TYPE_TO_VERB :: "(string \<times> string) list" where
  "TYPE_TO_VERB = invert VERB_TO_TYPE"

section \<open>AS1 to AS2\<close>

text \<open>
  \<open>from_as1 obj type context\<close>. \<^verbatim>\<open>copy.deepcopy\<close> is the identity on values; each
  rebinding of \<open>d\<close> below is one in-place change of the copy. The dict display passed to
  \<^verbatim>\<open>obj.update\<close> is evaluated item by item, so the pops and the recursive calls happen in
  the order written and the first exception ends the call. \<open>all_from_as1\<close> is the local
  function of the source: \<open>pop_list\<close> followed by the comprehension.
\<close>

lemma bind_err_cong [fundef_cong]:
  "m = m' \<Longrightarrow> (\<And>x. m' = Inr x \<Longrightarrow> f x = f' x) \<Longrightarrow> bind_err m f = bind_err m' f'"
  by (auto simp: bind_err_def split: sum.splits)

lemma mapM_err_cong [fundef_cong]:
  "xs = ys \<Longrightarrow> (\<And>x. x \<in> set ys \<Longrightarrow> f x = g x) \<Longrightarrow> mapM_err f xs = mapM_err g ys"
  by (induction ys arbitrary: xs) (auto cong: bind_err_cong)

function from_as1 :: "json \<Rightarrow> json \<Rightarrow> json \<Rightarrow> error + json" where
  "from_as1 obj type context =
     (if \<not> truthy obj then Inr (JDict [])
      else case obj of
        JDict d \<Rightarrow>
          (case dict_pop d ''verb'' of (verb, d) \<Rightarrow>
           case dict_pop d ''objectType'' of (obj_type, d) \<Rightarrow>
           let key = (if truthy verb then verb else obj_type) in
           bind_err (table_get OBJECT_TYPE_TO_TYPE key) (\<lambda>t1.
           bind_err (if truthy t1 then Inr t1 else table_get VERB_TO_TYPE key) (\<lambda>t2.
           let type = (if truthy t2 then t2 else type);
               d = (if truthy context then AList.update ''@context'' (JStr CONTEXT) d else d)
           in
           case dict_pop d ''displayName'' of (name, d) \<Rightarrow>
           bind_err (from_as1 (dict_get d ''actor'') JNull JNull) (\<lambda>actor.
           case pop_list d ''attachments'' of (elems, d) \<Rightarrow>
           bind_err (mapM_err (\<lambda>elem. from_as1 elem JNull JNull) elems) (\<lambda>attachment.
           case pop_list d ''author'' of (elems, d) \<Rightarrow>
           bind_err (mapM_err (\<lambda>elem. from_as1 elem (JStr ''Person'') JNull) elems) (\<lambda>attributedTo.
           case pop_list d ''image'' of (elems, d) \<Rightarrow>
           bind_err (mapM_err (\<lambda>elem. from_as1 elem (JStr ''Image'') JNull) elems) (\<lambda>image.
           bind_err (py_iter (dict_get_or d ''inReplyTo'' (JList []))) (\<lambda>origs.
           bind_err (mapM_err (\<lambda>orig. py_get orig ''url'') origs) (\<lambda>urls.
           let inReplyTo = trim_nulls (JList urls) in
           bind_err (from_as1 (dict_get d ''object'') JNull JNull) (\<lambda>object.
           case pop_list d ''tags'' of (elems, d) \<Rightarrow>
           bind_err (mapM_err (\<lambda>elem. from_as1 elem JNull JNull) elems) (\<lambda>tag.
           let d = dict_update d
                 [(''type'', type),
                  (''name'', name),
                  (''actor'', actor),
                  (''attachment'', JList attachment),
                  (''attributedTo'', JList attributedTo),
                  (''image'', JList image),
                  (''inReplyTo'', inReplyTo),
                  (''object'', object),
                  (''tag'', JList tag)];
               loc = dict_get d ''location''
           in
           bind_err (if truthy loc
                     then bind_err (from_as1 loc (JStr ''Place'') JNull)
                            (\<lambda>l. Inr (AList.update ''location'' l d))
                     else Inr d) (\<lambda>d.
           case trim_nulls (JDict d) of
             JDict d \<Rightarrow> if map fst d = [''url''] then Inr (dict_get d ''url'') else Inr (JDict d)
           | v \<Rightarrow> Inr v))))))))))))
      | _ \<Rightarrow> Inl ValueError)"
  by pat_completeness auto

termination from_as1
  apply (relation "measure (\<lambda>(obj, t, c). size obj)")
         apply simp
        apply (simp_all (no_asm_use) only: dict_pop_def pop_list_def prod.inject)
        apply (elim conjE, hypsubst, rule measure_step, rule dict_get_below_dict, intro below_intros)
       apply (elim conjE, hypsubst, rule measure_step, erule get_list_below, intro below_intros)
      apply (elim conjE, hypsubst, rule measure_step, erule get_list_below, intro below_intros)
     apply (elim conjE, hypsubst, rule measure_step, erule get_list_below, intro below_intros)
    apply (elim conjE, hypsubst, rule measure_step, rule dict_get_below_dict, intro below_intros)
   apply (elim conjE, hypsubst, rule measure_step, erule get_list_below, intro below_intros)
  apply (elim conjE, hypsubst, rule measure_step)
  apply (subst dict_get_dict_update_other, simp (no_asm))
  apply (rule dict_get_below_dict, intro below_intros)
  done

declare from_as1.simps [simp del]

section \<open>AS2 to AS1\<close>

text \<open>
  \<^verbatim>\<open>logging.warning\<close> is the one effect of \<open>to_as1\<close> besides its result: the call returns
  the warnings it logged, oldest first, next to its result or exception. The one warning
  of the source names the dropped \<^verbatim>\<open>attributedTo\<close> values, \<^verbatim>\<open>attrib[1:]\<close>.
\<close>

datatype warning = DroppedAttributedTo "json list"

type_synonym 'a logged = "warning list \<times> (error + 'a)"

definition return_log :: "'a \<Rightarrow> 'a logged" where
  "return_log x = ([], Inr x)"

definition lift_err :: "error + 'a \<Rightarrow> 'a logged" where
  "lift_err m = ([], m)"

definition logging_warning :: "warning \<Rightarrow> unit logged" where
  "logging_warning w = ([w], Inr ())"

definition bind_log :: "'a logged \<Rightarrow> ('a \<Rightarrow> 'b logged) \<Rightarrow> 'b logged" where
  "bind_log m f =
     (case m of
        (ws, Inl e) \<Rightarrow> (ws, Inl e)
      | (ws, Inr x) \<Rightarrow> (case f x of (ws', r) \<Rightarrow> (ws @ ws', r)))"

fun mapM_log :: "('a \<Rightarrow> 'b logged) \<Rightarrow> 'a list \<Rightarrow> 'b list logged" where
  "mapM_log f [] = return_log []"
| "mapM_log f (x # xs) =
     bind_log (f x) (\<lambda>y. bind_log (mapM_log f xs) (\<lambda>ys. return_log (y # ys)))"

lemma bind_log_cong [fundef_cong]:
  "m = m' \<Longrightarrow> (\<And>x. snd m' = Inr x \<Longrightarrow> f x = f' x) \<Longrightarrow> bind_log m f = bind_log m' f'"
  by (auto simp: bind_log_def split: sum.splits prod.splits)

lemma mapM_log_cong [fundef_cong]:
  "xs = ys \<Longrightarrow> (\<And>x. x \<in> set ys \<Longrightarrow> f x = g x) \<Longrightarrow> mapM_log f xs = mapM_log g ys"
  by (induction ys arbitrary: xs) (auto cong: bind_log_cong)

text \<open>
  Lines 122 to 128 of the source, the block under \<^verbatim>\<open>if use_type:\<close>. The two table
  lookups raise on an unhashable \<open>type\<close>.
\<close>

definition vocab_fields :: "bool \<Rightarrow> json \<Rightarrow> dict \<Rightarrow> error + dict" where
  "vocab_fields use_type type d =
     (if use_type then
        bind_err (table_get TYPE_TO_OBJECT_TYPE type) (\<lambda>object_type.
        let d = AList.update ''objectType'' object_type d in
        bind_err (table_get TYPE_TO_VERB type) (\<lambda>verb.
        let d = AList.update ''verb'' verb d in
        if truthy (dict_get d ''inReplyTo'') \<and>
           (dict_get d ''objectType'' = JStr ''note'' \<or> dict_get d ''objectType'' = JStr ''article'')
        then Inr (AList.update ''objectType'' (JStr ''comment'') d)
        else if truthy (dict_get d ''verb'') \<and> \<not> truthy (dict_get d ''objectType'')
        then Inr (AList.update ''objectType'' (JStr ''activity'') d)
        else Inr d))
      else Inr d)"

lemma size_table_get: "table_get tbl key = Inr v \<Longrightarrow> size v = 0"
  by (auto simp: table_get_def split: json.splits option.splits)

lemma vocab_fields_below:
  assumes "snd (lift_err (vocab_fields u t d)) = Inr d'"
    and "vals_below d (size (JDict d0))"
  shows "vals_below d' (size (JDict d0))"
proof (cases u)
  case False
  with assms show ?thesis by (simp add: lift_err_def vocab_fields_def)
next
  case True
  with assms(1) obtain ot vb where ot: "table_get TYPE_TO_OBJECT_TYPE t = Inr ot"
    and vb: "table_get TYPE_TO_VERB t = Inr vb"
    and d': "d' = AList.update ''verb'' vb (AList.update ''objectType'' ot d) \<or>
             d' = AList.update ''objectType'' (JStr ''comment'')
                    (AList.update ''verb'' vb (AList.update ''objectType'' ot d)) \<or>
             d' = AList.update ''objectType'' (JStr ''activity'')
                    (AList.update ''verb'' vb (AList.update ''objectType'' ot d))"
    by (auto simp: lift_err_def vocab_fields_def bind_err_def Let_def
        split: sum.splits if_splits)
  have "size ot < size (JDict d0)" "size vb < size (JDict d0)"
    using size_table_get [OF ot] size_table_get [OF vb] by simp_all
  then have "vals_below (AList.update ''verb'' vb (AList.update ''objectType'' ot d))
      (size (JDict d0))"
    using assms(2) by (intro vals_below_update)
  with d' show ?thesis
    by (auto intro: vals_below_update size_JStr_less)
qed

lemma py_iter_below:
  assumes "snd (lift_err (py_iter (dict_get_or d k (JList [])))) = Inr xs"
    and "x \<in> set xs" and "vals_below d (size (JDict d0))"
  shows "size x < size (JDict d0)"
proof (cases "map_of d k")
  case None
  with assms show ?thesis by (simp add: lift_err_def py_iter_def dict_get_or_def)
next
  case (Some v)
  then have v: "size v < size (JDict d0)"
    using assms(3) by (auto simp: vals_below_def dest!: map_of_SomeD)
  from Some assms(1) have it: "py_iter v = Inr xs"
    by (simp add: lift_err_def dict_get_or_def)
  show ?thesis
  proof (cases v)
    case (JList ys)
    with it assms(2) have "x \<in> set ys" by (simp add: py_iter_def)
    then have "size x < size v" using JList size_elem_less_list [of x ys] by simp
    with v show ?thesis by simp
  qed (use it assms(2) in \<open>auto simp: py_iter_def\<close>)
qed

lemma get_list_first_below:
  "get_list d k = x # xs \<Longrightarrow> vals_below d n \<Longrightarrow> size x < n"
  by (rule get_list_below [of x d k]) simp_all

lemma measure_step2:
  "size x < size obj \<Longrightarrow> ((x, u), obj, u') \<in> measure (\<lambda>(obj, u). size obj)"
  by simp

function to_as1 :: "json \<Rightarrow> bool \<Rightarrow> json logged" where
  "to_as1 obj use_type =
     (if \<not> truthy obj then return_log (JDict [])
      else case obj of
        JStr s \<Rightarrow> return_log (JDict [(''url'', obj)])
      | JDict d \<Rightarrow>
          (let d = AList.delete ''@context'' d in
           case dict_pop d ''type'' of (type, d) \<Rightarrow>
           bind_log (lift_err (vocab_fields use_type type d)) (\<lambda>d.
           case dict_pop d ''name'' of (name, d) \<Rightarrow>
           bind_log (to_as1 (dict_get d ''actor'') True) (\<lambda>actor.
           case pop_list d ''attachment'' of (elems, d) \<Rightarrow>
           bind_log (mapM_log (\<lambda>elem. to_as1 elem True) elems) (\<lambda>attachments.
           bind_log (lift_err (py_iter (dict_get_or d ''image'' (JList [])))) (\<lambda>imgs.
           bind_log (mapM_log (\<lambda>img. to_as1 img False) imgs) (\<lambda>image.
           bind_log (mapM_log (\<lambda>orig. if is_basestring orig
                                         then return_log (JDict [(''url'', orig)])
                                         else to_as1 orig True)
                              (get_list d ''inReplyTo'')) (\<lambda>inReplyTo.
           bind_log (let val = dict_get d ''location''
                     in if is_basestring val
                        then return_log (JDict [(''url'', val)])
                        else to_as1 val True) (\<lambda>location.
           bind_log (to_as1 (dict_get d ''object'') True) (\<lambda>object.
           case pop_list d ''tag'' of (elems, d) \<Rightarrow>
           bind_log (mapM_log (\<lambda>elem. to_as1 elem True) elems) (\<lambda>tags.
           let d = dict_update d
                 [(''displayName'', name),
                  (''actor'', actor),
                  (''attachments'', JList attachments),
                  (''image'', JList image),
                  (''inReplyTo'', JList inReplyTo),
                  (''location'', location),
                  (''object'', object),
                  (''tags'', JList tags)]
           in
           case pop_list d ''attributedTo'' of (attrib, d) \<Rightarrow>
           bind_log (case attrib of
                       [] \<Rightarrow> return_log d
                     | first # rest \<Rightarrow>
                         bind_log (if rest \<noteq> []
                                   then logging_warning (DroppedAttributedTo rest)
                                   else return_log ()) (\<lambda>u.
                         bind_log (to_as1 first True) (\<lambda>author.
                         return_log (AList.update ''author'' author d)))) (\<lambda>d.
           return_log (trim_nulls (JDict d)))))))))))))
      | _ \<Rightarrow> lift_err (Inl ValueError))"
  by pat_completeness auto

termination to_as1
  apply (relation "measure (\<lambda>(obj, u). size obj)")
          apply simp
         apply (simp_all (no_asm_use) only: dict_pop_def pop_list_def prod.inject)
         apply (elim conjE, hypsubst, rule measure_step2, rule dict_get_below_dict,
      intro below_intros, erule vocab_fields_below, intro below_intros)
        apply (elim conjE, hypsubst, rule measure_step2, erule get_list_below,
      intro below_intros, erule vocab_fields_below, intro below_intros)
       apply (elim conjE, hypsubst, rule measure_step2, erule py_iter_below, assumption,
      intro below_intros, erule vocab_fields_below, intro below_intros)
      apply (elim conjE, hypsubst, rule measure_step2, erule get_list_below,
      intro below_intros, erule vocab_fields_below, intro below_intros)
     apply (elim conjE, hypsubst, rule measure_step2, rule dict_get_below_dict,
      intro below_intros, erule vocab_fields_below, intro below_intros)
    apply (elim conjE, hypsubst, rule measure_step2, rule dict_get_below_dict,
      intro below_intros, erule vocab_fields_below, intro below_intros)
   apply (elim conjE, hypsubst, rule measure_step2, erule get_list_below,
      intro below_intros, erule vocab_fields_below, intro below_intros)
  apply (elim conjE, hypsubst, rule measure_step2)
  apply (subst (asm) get_list_dict_update_other, simp (no_asm))
  apply (drule sym, erule get_list_first_below,
      intro below_intros, erule vocab_fields_below, intro below_intros)
  done

declare to_as1.simps [simp del]

section \<open>The transformers as equations over the input dict\<close>

text \<open>
  The reads of the two transformers go through the removals and stores made before them.
  None of these touches a key that is read later, so every read can be stated on the dict
  the call started from. \<open>as2_fields\<close> and \<open>as1_fields\<close> are the copy after
  \<^verbatim>\<open>obj.update\<close>; \<open>collapse\<close> is the last step of \<open>from_as1\<close>, which returns the value of
  \<^verbatim>\<open>url\<close> when that is the only key left; \<open>url_or_as1\<close> is the local function of \<open>to_as1\<close>.
\<close>

lemma from_as1_falsy: "\<not> truthy obj \<Longrightarrow> from_as1 obj type context = Inr (JDict [])"
  by (subst from_as1.simps) simp

lemma from_as1_not_dict:
  "truthy obj \<Longrightarrow> (\<And>d. obj \<noteq> JDict d) \<Longrightarrow> from_as1 obj type context = Inl ValueError"
  by (subst from_as1.simps) (simp split: json.splits)

definition as2_fields ::
  "dict \<Rightarrow> json \<Rightarrow> json \<Rightarrow> json \<Rightarrow> json list \<Rightarrow> json list \<Rightarrow> json list \<Rightarrow> json
    \<Rightarrow> json \<Rightarrow> json list \<Rightarrow> dict" where
  "as2_fields d context type actor attachment attributedTo img inReplyTo object tag =
     dict_update
       (AList.delete ''tags'' (AList.delete ''image'' (AList.delete ''author''
         (AList.delete ''attachments'' (AList.delete ''displayName''
           (if truthy context
            then AList.update ''@context'' (JStr CONTEXT)
                   (AList.delete ''objectType'' (AList.delete ''verb'' d))
            else AList.delete ''objectType'' (AList.delete ''verb'' d)))))))
       [(''type'', type),
        (''name'', dict_get d ''displayName''),
        (''actor'', actor),
        (''attachment'', JList attachment),
        (''attributedTo'', JList attributedTo),
        (''image'', JList img),
        (''inReplyTo'', inReplyTo),
        (''object'', object),
        (''tag'', JList tag)]"

definition type_key :: "dict \<Rightarrow> json" where
  "type_key d =
     (if truthy (dict_get d ''verb'') then dict_get d ''verb'' else dict_get d ''objectType'')"

definition collapse :: "json \<Rightarrow> json" where
  "collapse v =
     (case v of
        JDict d \<Rightarrow> if map fst d = [''url''] then dict_get d ''url'' else JDict d
      | _ \<Rightarrow> v)"

lemma dict_get_or_delete [simp]:
  "dict_get_or (AList.delete k' d) k dflt = (if k = k' then dflt else dict_get_or d k dflt)"
  by (simp add: dict_get_or_def map_of_delete_key)

lemma dict_get_or_update [simp]:
  "dict_get_or (AList.update k' v d) k dflt = (if k = k' then v else dict_get_or d k dflt)"
  by (simp add: dict_get_or_def map_of_update_key)

lemma get_list_update_if:
  "get_list (AList.update k' v d) k =
     (if k = k' then (case v of JList xs \<Rightarrow> xs | _ \<Rightarrow> [v]) else get_list d k)"
  by (simp add: get_list_def map_of_update_key split: json.splits)

lemma location_after_update:
  "dict_get (dict_update d [(''type'', a), (''name'', b), (''actor'', c), (''attachment'', e),
       (''attributedTo'', f), (''image'', g), (''inReplyTo'', h), (''object'', i), (''tag'', j)])
     ''location'' = dict_get d ''location''"
  by (rule dict_get_dict_update_other) simp

lemma collapse_trim:
  "(case trim_nulls (JDict fin) of
      JDict d \<Rightarrow> if map fst d = [''url''] then Inr (dict_get d ''url'') else Inr (JDict d)
    | v \<Rightarrow> Inr v) = Inr (collapse (trim_nulls (JDict fin)))"
  by (simp add: collapse_def)

lemmas read_simps =
  dict_get_delete dict_get_update dict_get_or_delete dict_get_or_update
  get_list_delete get_list_update_if location_after_update
  list.inject list.distinct char.inject simp_thms if_True if_False

lemma from_as1_dict:
  assumes "d \<noteq> []"
  shows "from_as1 (JDict d) type context =
     bind_err (table_get OBJECT_TYPE_TO_TYPE (type_key d)) (\<lambda>t1.
     bind_err (if truthy t1 then Inr t1 else table_get VERB_TO_TYPE (type_key d)) (\<lambda>t2.
     bind_err (from_as1 (dict_get d ''actor'') JNull JNull) (\<lambda>actor.
     bind_err (mapM_err (\<lambda>elem. from_as1 elem JNull JNull) (get_list d ''attachments''))
       (\<lambda>attachment.
     bind_err (mapM_err (\<lambda>elem. from_as1 elem (JStr ''Person'') JNull) (get_list d ''author''))
       (\<lambda>attributedTo.
     bind_err (mapM_err (\<lambda>elem. from_as1 elem (JStr ''Image'') JNull) (get_list d ''image''))
       (\<lambda>image.
     bind_err (py_iter (dict_get_or d ''inReplyTo'' (JList []))) (\<lambda>origs.
     bind_err (mapM_err (\<lambda>orig. py_get orig ''url'') origs) (\<lambda>urls.
     bind_err (from_as1 (dict_get d ''object'') JNull JNull) (\<lambda>object.
     bind_err (mapM_err (\<lambda>elem. from_as1 elem JNull JNull) (get_list d ''tags'')) (\<lambda>tag.
     bind_err (if truthy (dict_get d ''location'')
               then bind_err (from_as1 (dict_get d ''location'') (JStr ''Place'') JNull)
                      (\<lambda>l. Inr (AList.update ''location'' l
                         (as2_fields d context (if truthy t2 then t2 else type) actor attachment
                            attributedTo image (trim_nulls (JList urls)) object tag)))
               else Inr (as2_fields d context (if truthy t2 then t2 else type) actor attachment
                            attributedTo image (trim_nulls (JList urls)) object tag)) (\<lambda>fin.
     Inr (collapse (trim_nulls (JDict fin))))))))))))))"
proof (cases "truthy context")
  case True
  then have c: "truthy context = True" by simp
  show ?thesis
    apply (subst from_as1.simps)
    apply (simp only: truthy.simps assms c if_True if_False json.case dict_pop_def
        pop_list_def prod.case Let_def simp_thms collapse_trim)
    apply (simp only: read_simps type_key_def as2_fields_def c cong: if_cong)
    done
next
  case False
  then have c: "truthy context = False" by simp
  show ?thesis
    apply (subst from_as1.simps)
    apply (simp only: truthy.simps assms c if_True if_False json.case dict_pop_def
        pop_list_def prod.case Let_def simp_thms collapse_trim)
    apply (simp only: read_simps type_key_def as2_fields_def c cong: if_cong)
    done
qed


lemma to_as1_falsy: "\<not> truthy obj \<Longrightarrow> to_as1 obj use_type = return_log (JDict [])"
  by (subst to_as1.simps) simp

lemma to_as1_string: "s \<noteq> [] \<Longrightarrow> to_as1 (JStr s) use_type = return_log (JDict [(''url'', JStr s)])"
  by (subst to_as1.simps) simp

lemma to_as1_other:
  "truthy obj \<Longrightarrow> (\<And>d. obj \<noteq> JDict d) \<Longrightarrow> (\<And>s. obj \<noteq> JStr s) \<Longrightarrow>
     to_as1 obj use_type = lift_err (Inl ValueError)"
  by (subst to_as1.simps) (simp split: json.splits)

definition url_or_as1 :: "json \<Rightarrow> json logged" where
  "url_or_as1 val =
     (if is_basestring val then return_log (JDict [(''url'', val)]) else to_as1 val True)"

definition as1_fields ::
  "dict \<Rightarrow> json \<Rightarrow> json list \<Rightarrow> json list \<Rightarrow> json list \<Rightarrow> json \<Rightarrow> json \<Rightarrow> json list
    \<Rightarrow> dict" where
  "as1_fields d actor attachments img inReplyTo location object tags =
     AList.delete ''attributedTo''
       (dict_update
          (AList.delete ''tag'' (AList.delete ''attachment'' (AList.delete ''name'' d)))
          [(''displayName'', dict_get d ''name''),
           (''actor'', actor),
           (''attachments'', JList attachments),
           (''image'', JList img),
           (''inReplyTo'', JList inReplyTo),
           (''location'', location),
           (''object'', object),
           (''tags'', JList tags)])"

lemma attributedTo_after_update:
  "get_list (dict_update d [(''displayName'', a), (''actor'', b), (''attachments'', c),
       (''image'', e), (''inReplyTo'', f), (''location'', g), (''object'', h), (''tags'', i)])
     ''attributedTo'' = get_list d ''attributedTo''"
  by (rule get_list_dict_update_other) simp

lemma to_as1_dict:
  assumes "d \<noteq> []"
  shows "to_as1 (JDict d) use_type =
     bind_log (lift_err (vocab_fields use_type (dict_get d ''type'')
                 (AList.delete ''type'' (AList.delete ''@context'' d)))) (\<lambda>d.
     bind_log (to_as1 (dict_get d ''actor'') True) (\<lambda>actor.
     bind_log (mapM_log (\<lambda>elem. to_as1 elem True) (get_list d ''attachment'')) (\<lambda>attachments.
     bind_log (lift_err (py_iter (dict_get_or d ''image'' (JList [])))) (\<lambda>imgs.
     bind_log (mapM_log (\<lambda>img. to_as1 img False) imgs) (\<lambda>image.
     bind_log (mapM_log url_or_as1 (get_list d ''inReplyTo'')) (\<lambda>inReplyTo.
     bind_log (url_or_as1 (dict_get d ''location'')) (\<lambda>location.
     bind_log (to_as1 (dict_get d ''object'') True) (\<lambda>object.
     bind_log (mapM_log (\<lambda>elem. to_as1 elem True) (get_list d ''tag'')) (\<lambda>tags.
     bind_log (case get_list d ''attributedTo'' of
                 [] \<Rightarrow> return_log
                   (as1_fields d actor attachments image inReplyTo location object tags)
               | first # rest \<Rightarrow>
                   bind_log (if rest \<noteq> []
                             then logging_warning (DroppedAttributedTo rest)
                             else return_log ()) (\<lambda>u.
                   bind_log (to_as1 first True) (\<lambda>author.
                   return_log (AList.update ''author'' author
                     (as1_fields d actor attachments image inReplyTo location object tags)))))
       (\<lambda>fin.
     return_log (trim_nulls (JDict fin))))))))))))"
  apply (subst to_as1.simps)
  apply (simp only: truthy.simps assms if_True if_False json.case dict_pop_def
      pop_list_def prod.case Let_def simp_thms)
  apply (simp only: read_simps attributedTo_after_update as1_fields_def url_or_as1_def [abs_def]
      cong: if_cong)
  done


subsection \<open>Evaluating a chain of calls\<close>

text \<open>
  With the weak congruence rules the simplifier evaluates a chain call by call: the rest of
  the chain is looked at only once the call before it has returned.
\<close>

lemma bind_err_simps [simp]:
  "bind_err (Inr x) f = f x"
  "bind_err (Inl e) f = Inl e"
  by (simp_all add: bind_err_def)

lemma bind_err_weak_cong: "m = m' \<Longrightarrow> bind_err m f = bind_err m' f"
  by simp

lemma bind_log_simps [simp]:
  "bind_log (ws, Inl e) f = (ws, Inl e)"
  "bind_log (ws, Inr x) f = (case f x of (ws', r) \<Rightarrow> (ws @ ws', r))"
  "bind_log (return_log x) f = f x"
  "bind_log (lift_err (Inr x)) f = f x"
  "bind_log (lift_err (Inl e)) f = lift_err (Inl e)"
  by (simp_all add: bind_log_def return_log_def lift_err_def split: prod.splits)

lemma bind_log_weak_cong: "m = m' \<Longrightarrow> bind_log m f = bind_log m' f"
  by simp

section \<open>Fields of a result\<close>

text \<open>
  \<open>field v k\<close> is the value of key \<open>k\<close> in the mapping \<open>v\<close>, if \<open>v\<close> is a mapping that has
  the key. \<open>kept v\<close> is what trimming leaves of a value stored under a key: nothing if the
  value trims to a null, the trimmed value otherwise. A Python dict has each key once;
  where a lemma needs that of an association list it says \<open>distinct (map fst d)\<close>.
\<close>

definition field :: "json \<Rightarrow> string \<Rightarrow> json option" where
  "field v k = (case v of JDict d \<Rightarrow> map_of d k | _ \<Rightarrow> None)"

definition kept :: "json \<Rightarrow> json option" where
  "kept v = (if is_null (trim_nulls v) then None else Some (trim_nulls v))"

lemma map_of_trim_absent:
  "map_of d k = None \<Longrightarrow>
   map_of (filter (\<lambda>kv. \<not> is_null (snd kv)) (map (\<lambda>kv. (fst kv, trim_nulls (snd kv))) d)) k = None"
  by (induction d) (auto split: if_splits)

lemma map_of_trim:
  "distinct (map fst d) \<Longrightarrow>
   map_of (filter (\<lambda>kv. \<not> is_null (snd kv)) (map (\<lambda>kv. (fst kv, trim_nulls (snd kv))) d)) k =
     (case map_of d k of None \<Rightarrow> None | Some v \<Rightarrow> kept v)"
proof (induction d)
  case Nil
  show ?case by simp
next
  case (Cons kv d)
  show ?case
  proof (cases "fst kv = k")
    case True
    with Cons.prems have "map_of d k = None"
      by (auto simp: map_of_eq_None_iff)
    with True show ?thesis
      by (cases kv) (simp add: kept_def map_of_trim_absent)
  next
    case False
    with Cons show ?thesis by (cases kv) simp
  qed
qed

lemma field_trim_nulls:
  "distinct (map fst d) \<Longrightarrow>
   field (trim_nulls (JDict d)) k = (case map_of d k of None \<Rightarrow> None | Some v \<Rightarrow> kept v)"
  by (simp add: field_def map_of_trim)

lemma field_trim_nulls_absent: "map_of d k = None \<Longrightarrow> field (trim_nulls (JDict d)) k = None"
  by (simp add: field_def map_of_trim_absent)

lemma map_of_dict_update:
  "map_of (dict_update d kvs) k =
     (case map_of (rev kvs) k of None \<Rightarrow> map_of d k | Some v \<Rightarrow> Some v)"
  unfolding dict_update_def
proof (induction kvs arbitrary: d)
  case Nil
  show ?case by simp
next
  case (Cons kv kvs)
  show ?case
    by (cases kv) (auto simp: Cons.IH map_of_update_key map_add_def split: option.splits)
qed

lemma distinct_dict_update:
  "distinct (map fst d) \<Longrightarrow> distinct (map fst (dict_update d kvs))"
  unfolding dict_update_def
  by (induction kvs arbitrary: d) (simp_all add: distinct_update)

lemma distinct_as2_fields:
  "distinct (map fst d) \<Longrightarrow> distinct (map fst (as2_fields d c t a at atr im irt ob tg))"
  unfolding as2_fields_def
  by (intro distinct_dict_update distinct_delete) (simp add: distinct_update distinct_delete)

lemma distinct_as1_fields:
  "distinct (map fst d) \<Longrightarrow> distinct (map fst (as1_fields d a at im irt lo ob tg))"
  unfolding as1_fields_def
  by (intro distinct_dict_update distinct_delete)

lemma as2_fields_type [simp]: "map_of (as2_fields d c t a at atr im irt ob tg) ''type'' = Some t"
  by (simp add: as2_fields_def map_of_dict_update)

lemma as2_fields_image [simp]:
  "map_of (as2_fields d c t a at atr im irt ob tg) ''image'' = Some (JList im)"
  by (simp add: as2_fields_def map_of_dict_update)

lemma as2_fields_verb [simp]: "map_of (as2_fields d c t a at atr im irt ob tg) ''verb'' = None"
  by (simp add: as2_fields_def map_of_dict_update map_of_delete_key map_of_update_key)

lemma as2_fields_objectType [simp]:
  "map_of (as2_fields d c t a at atr im irt ob tg) ''objectType'' = None"
  by (simp add: as2_fields_def map_of_dict_update map_of_delete_key map_of_update_key)

lemma as2_fields_context [simp]:
  "map_of (as2_fields d c t a at atr im irt ob tg) ''@context'' =
     (if truthy c then Some (JStr CONTEXT) else map_of d ''@context'')"
  by (simp add: as2_fields_def map_of_dict_update map_of_delete_key map_of_update_key)

lemma as1_fields_image [simp]:
  "map_of (as1_fields d a at im irt lo ob tg) ''image'' = Some (JList im)"
  by (simp add: as1_fields_def map_of_dict_update map_of_delete_key)

lemma as1_fields_attributedTo [simp]:
  "map_of (as1_fields d a at im irt lo ob tg) ''attributedTo'' = None"
  by (simp add: as1_fields_def map_of_delete_key)

lemma as1_fields_author [simp]:
  "map_of (as1_fields d a at im irt lo ob tg) ''author'' = map_of d ''author''"
  by (simp add: as1_fields_def map_of_dict_update map_of_delete_key)

lemma as1_fields_objectType [simp]:
  "map_of (as1_fields d a at im irt lo ob tg) ''objectType'' = map_of d ''objectType''"
  by (simp add: as1_fields_def map_of_dict_update map_of_delete_key)

lemma as1_fields_verb [simp]:
  "map_of (as1_fields d a at im irt lo ob tg) ''verb'' = map_of d ''verb''"
  by (simp add: as1_fields_def map_of_dict_update map_of_delete_key)

lemma as1_fields_context [simp]:
  "map_of (as1_fields d a at im irt lo ob tg) ''@context'' = map_of d ''@context''"
  by (simp add: as1_fields_def map_of_dict_update map_of_delete_key)

lemma as1_fields_type [simp]:
  "map_of (as1_fields d a at im irt lo ob tg) ''type'' = map_of d ''type''"
  by (simp add: as1_fields_def map_of_dict_update map_of_delete_key)

lemma bind_err_Inr: "bind_err m f = Inr r \<longleftrightarrow> (\<exists>x. m = Inr x \<and> f x = Inr r)"
  by (auto simp: bind_err_def split: sum.splits)

lemma bind_err_InrE:
  assumes "bind_err m f = Inr r"
  obtains x where "m = Inr x" and "f x = Inr r"
  using assms by (auto simp: bind_err_Inr)

lemma bind_log_InrE:
  assumes "bind_log m f = (ws, Inr r)"
  obtains w1 x w2 where "m = (w1, Inr x)" and "f x = (w2, Inr r)" and "ws = w1 @ w2"
  using assms by (auto simp: bind_log_def split: sum.splits prod.splits)


subsection \<open>What \<open>from_as1\<close> returns for a mapping\<close>

lemma from_as1_dict_result:
  assumes "from_as1 (JDict d) type context = Inr r" and "d \<noteq> []"
  obtains t1 t2 a at atr im irt ob tg fin where
    "table_get OBJECT_TYPE_TO_TYPE (type_key d) = Inr t1"
    "(if truthy t1 then Inr t1 else table_get VERB_TO_TYPE (type_key d)) = Inr t2"
    "fin = as2_fields d context (if truthy t2 then t2 else type) a at atr im irt ob tg \<or>
     (\<exists>l. fin = AList.update ''location'' l
        (as2_fields d context (if truthy t2 then t2 else type) a at atr im irt ob tg))"
    "r = collapse (trim_nulls (JDict fin))"
proof -
  note eq = assms(1) [unfolded from_as1_dict [OF assms(2)]]
  from eq obtain t1 where t1: "table_get OBJECT_TYPE_TO_TYPE (type_key d) = Inr t1"
    by (auto elim: bind_err_InrE)
  note eq = eq [unfolded t1 bind_err_simps]
  from eq obtain t2 where
    t2: "(if truthy t1 then Inr t1 else table_get VERB_TO_TYPE (type_key d)) = Inr t2"
    by (auto elim: bind_err_InrE)
  note eq = eq [unfolded t2 bind_err_simps]
  from eq obtain a where a: "from_as1 (dict_get d ''actor'') JNull JNull = Inr a"
    by (auto elim: bind_err_InrE)
  note eq = eq [unfolded a bind_err_simps]
  from eq obtain at where at: "mapM_err (\<lambda>elem. from_as1 elem JNull JNull)
      (get_list d ''attachments'') = Inr at"
    by (auto elim: bind_err_InrE)
  note eq = eq [unfolded at bind_err_simps]
  from eq obtain atr where atr: "mapM_err (\<lambda>elem. from_as1 elem (JStr ''Person'') JNull)
      (get_list d ''author'') = Inr atr"
    by (auto elim: bind_err_InrE)
  note eq = eq [unfolded atr bind_err_simps]
  from eq obtain im where im: "mapM_err (\<lambda>elem. from_as1 elem (JStr ''Image'') JNull)
      (get_list d ''image'') = Inr im"
    by (auto elim: bind_err_InrE)
  note eq = eq [unfolded im bind_err_simps]
  from eq obtain origs where origs: "py_iter (dict_get_or d ''inReplyTo'' (JList [])) = Inr origs"
    by (auto elim: bind_err_InrE)
  note eq = eq [unfolded origs bind_err_simps]
  from eq obtain urls where urls: "mapM_err (\<lambda>orig. py_get orig ''url'') origs = Inr urls"
    by (auto elim: bind_err_InrE)
  note eq = eq [unfolded urls bind_err_simps]
  from eq obtain ob where ob: "from_as1 (dict_get d ''object'') JNull JNull = Inr ob"
    by (auto elim: bind_err_InrE)
  note eq = eq [unfolded ob bind_err_simps]
  from eq obtain tg where tg: "mapM_err (\<lambda>elem. from_as1 elem JNull JNull)
      (get_list d ''tags'') = Inr tg"
    by (auto elim: bind_err_InrE)
  note eq = eq [unfolded tg bind_err_simps]
  let ?F = "as2_fields d context (if truthy t2 then t2 else type) a at atr im
      (trim_nulls (JList urls)) ob tg"
  from eq obtain fin where fin: "(if truthy (dict_get d ''location'')
       then bind_err (from_as1 (dict_get d ''location'') (JStr ''Place'') JNull)
              (\<lambda>l. Inr (AList.update ''location'' l ?F))
       else Inr ?F) = Inr fin" and r: "r = collapse (trim_nulls (JDict fin))"
    by (auto elim!: bind_err_InrE)
  from fin have disj: "fin = ?F \<or> (\<exists>l. fin = AList.update ''location'' l ?F)"
    by (auto split: if_splits elim!: bind_err_InrE)
  show thesis by (rule that [OF t1 t2 disj r])
qed

lemma field_collapse:
  "field tr k = Some v \<Longrightarrow> k \<noteq> ''url'' \<Longrightarrow> collapse tr = tr"
  by (cases tr) (auto simp: field_def collapse_def dest!: map_of_SomeD)


text \<open>
  The type resolution of \<open>from_as1\<close> in the words of the specification: take the verb if
  there is one (a value Python takes as true), else the object type; look that one value up
  in the object type table, then in the verb table; fall back to the hint.
\<close>

definition resolved_type :: "dict \<Rightarrow> json \<Rightarrow> json" where
  "resolved_type d hint =
     (let key = (if truthy (dict_get d ''verb'') then dict_get d ''verb''
                 else dict_get d ''objectType'')
      in case key of
           JStr s \<Rightarrow>
             (case map_of OBJECT_TYPE_TO_TYPE s of
                Some t \<Rightarrow> JStr t
              | None \<Rightarrow>
                  (case map_of VERB_TO_TYPE s of
                     Some t \<Rightarrow> JStr t
                   | None \<Rightarrow> hint))
         | _ \<Rightarrow> hint)"

lemma object_type_values_nonempty: "map_of OBJECT_TYPE_TO_TYPE s = Some t \<Longrightarrow> t \<noteq> []"
  by (auto simp: OBJECT_TYPE_TO_TYPE_def split: if_splits)

lemma verb_values_nonempty: "map_of VERB_TO_TYPE s = Some t \<Longrightarrow> t \<noteq> []"
  by (auto simp: VERB_TO_TYPE_def split: if_splits)

lemma table_get_string:
  "table_get tbl (JStr s) = Inr (case map_of tbl s of None \<Rightarrow> JNull | Some v \<Rightarrow> JStr v)"
  by (simp add: table_get_def)

lemma table_get_other:
  "table_get tbl key = Inr v \<Longrightarrow> (\<And>s. key \<noteq> JStr s) \<Longrightarrow> v = JNull"
  by (cases key) (auto simp: table_get_def)

lemma resolved_type_code:
  assumes t1: "table_get OBJECT_TYPE_TO_TYPE (type_key d) = Inr t1"
    and t2: "(if truthy t1 then Inr t1 else table_get VERB_TO_TYPE (type_key d)) = Inr t2"
  shows "(if truthy t2 then t2 else hint) = resolved_type d hint"
proof (cases "\<exists>s. type_key d = JStr s")
  case False
  then have n: "\<And>s. type_key d \<noteq> JStr s" by simp
  from t1 n have "t1 = JNull" by (rule table_get_other)
  with t2 have "table_get VERB_TO_TYPE (type_key d) = Inr t2" by simp
  from this n have "t2 = JNull" by (rule table_get_other)
  moreover from n have "resolved_type d hint = hint"
    by (cases "type_key d") (simp_all add: resolved_type_def type_key_def)
  ultimately show ?thesis by simp
next
  case True
  then obtain s where s: "type_key d = JStr s" by blast
  then have rt: "resolved_type d hint =
      (case map_of OBJECT_TYPE_TO_TYPE s of
         Some t \<Rightarrow> JStr t
       | None \<Rightarrow> (case map_of VERB_TO_TYPE s of Some t \<Rightarrow> JStr t | None \<Rightarrow> hint))"
    by (simp add: resolved_type_def type_key_def)
  show ?thesis
  proof (cases "map_of OBJECT_TYPE_TO_TYPE s")
    case (Some t)
    with t1 s have "t1 = JStr t" by (simp add: table_get_string)
    moreover from Some have "t \<noteq> []" by (rule object_type_values_nonempty)
    ultimately have "t2 = JStr t" using t2 by simp
    with \<open>t \<noteq> []\<close> Some rt show ?thesis by simp
  next
    case None
    with t1 s have "t1 = JNull" by (simp add: table_get_string)
    with t2 s have t2': "t2 = (case map_of VERB_TO_TYPE s of None \<Rightarrow> JNull | Some v \<Rightarrow> JStr v)"
      by (simp add: table_get_string)
    show ?thesis
    proof (cases "map_of VERB_TO_TYPE s")
      case None
      with t2' \<open>map_of OBJECT_TYPE_TO_TYPE s = None\<close> rt show ?thesis by simp
    next
      case (Some t)
      then have "t \<noteq> []" by (rule verb_values_nonempty)
      with t2' Some \<open>map_of OBJECT_TYPE_TO_TYPE s = None\<close> rt show ?thesis by simp
    qed
  qed
qed


text \<open>The round trip of C1: \<open>from_as1\<close> with no type hint, then \<open>to_as1\<close>.\<close>

definition to_as1_from_as1 :: "json \<Rightarrow> json \<Rightarrow> json logged" where
  "to_as1_from_as1 obj context =
     bind_log (lift_err (from_as1 obj JNull context)) (\<lambda>as2. to_as1 as2 True)"

lemma from_as1_link:
  assumes "s \<noteq> []"
  shows "from_as1 (JDict [(''url'', JStr s)]) JNull context =
     Inr (if truthy context
          then JDict [(''url'', JStr s), (''@context'', JStr CONTEXT)]
          else JStr s)"
  using assms
  by (simp add: from_as1_dict from_as1_falsy type_key_def dict_get_def dict_get_or_def
      get_list_def table_get_def py_iter_def as2_fields_def dict_update_def
      collapse_def CONTEXT_def cong: bind_err_weak_cong)

lemma to_as1_link:
  assumes "s \<noteq> []"
  shows "to_as1 (JDict [(''url'', JStr s), (''@context'', JStr CONTEXT)]) True =
      ([], Inr (JDict [(''url'', JStr s)]))"
  using assms
  by (simp add: to_as1_dict to_as1_falsy vocab_fields_def dict_get_def dict_get_or_def
      get_list_def table_get_def py_iter_def as1_fields_def dict_update_def url_or_as1_def
      CONTEXT_def return_log_def cong: bind_err_weak_cong bind_log_weak_cong)


subsection \<open>What \<open>to_as1\<close> returns for a mapping\<close>

text \<open>Lines 136 to 145 of the source: the conversions inside \<^verbatim>\<open>obj.update\<close>, in order.\<close>

definition to_as1_fields :: "dict \<Rightarrow> dict logged" where
  "to_as1_fields d =
     bind_log (to_as1 (dict_get d ''actor'') True) (\<lambda>actor.
     bind_log (mapM_log (\<lambda>elem. to_as1 elem True) (get_list d ''attachment'')) (\<lambda>attachments.
     bind_log (lift_err (py_iter (dict_get_or d ''image'' (JList [])))) (\<lambda>imgs.
     bind_log (mapM_log (\<lambda>img. to_as1 img False) imgs) (\<lambda>image.
     bind_log (mapM_log url_or_as1 (get_list d ''inReplyTo'')) (\<lambda>inReplyTo.
     bind_log (url_or_as1 (dict_get d ''location'')) (\<lambda>location.
     bind_log (to_as1 (dict_get d ''object'') True) (\<lambda>object.
     bind_log (mapM_log (\<lambda>elem. to_as1 elem True) (get_list d ''tag'')) (\<lambda>tags.
     return_log (as1_fields d actor attachments image inReplyTo location object tags)))))))))"

text \<open>Lines 147 to 152 of the source: the author, with the warning.\<close>

definition to_as1_author :: "json list \<Rightarrow> dict \<Rightarrow> dict logged" where
  "to_as1_author attrib d =
     (case attrib of
        [] \<Rightarrow> return_log d
      | first # rest \<Rightarrow>
          bind_log (if rest \<noteq> []
                    then logging_warning (DroppedAttributedTo rest)
                    else return_log ()) (\<lambda>u.
          bind_log (to_as1 first True) (\<lambda>author.
          return_log (AList.update ''author'' author d))))"

lemma bind_log_assoc: "bind_log (bind_log m f) g = bind_log m (\<lambda>x. bind_log (f x) g)"
  by (cases m) (auto simp: bind_log_def split: sum.splits prod.splits)

lemma bind_log_return: "bind_log (return_log x) f = f x"
  by simp

lemma to_as1_dict_steps:
  assumes "d \<noteq> []"
  shows "to_as1 (JDict d) use_type =
     bind_log (lift_err (vocab_fields use_type (dict_get d ''type'')
                 (AList.delete ''type'' (AList.delete ''@context'' d)))) (\<lambda>d.
     bind_log (to_as1_fields d) (\<lambda>fields.
     bind_log (to_as1_author (get_list d ''attributedTo'') fields) (\<lambda>fin.
     return_log (trim_nulls (JDict fin)))))"
  unfolding to_as1_dict [OF assms] to_as1_fields_def to_as1_author_def
  by (simp only: bind_log_assoc bind_log_return)

lemma to_as1_fields_result:
  assumes "to_as1_fields d = (ws, Inr F)"
  obtains a at im irt lo ob tg where "F = as1_fields d a at im irt lo ob tg"
  using assms unfolding to_as1_fields_def
  apply (elim bind_log_InrE)
  apply (auto simp: return_log_def)
  done

lemma to_as1_dict_result:
  assumes "to_as1 (JDict d) use_type = (ws, Inr r)" and "d \<noteq> []"
  obtains d2 w1 F w2 fin where
    "vocab_fields use_type (dict_get d ''type'')
       (AList.delete ''type'' (AList.delete ''@context'' d)) = Inr d2"
    "to_as1_fields d2 = (w1, Inr F)"
    "to_as1_author (get_list d2 ''attributedTo'') F = (w2, Inr fin)"
    "ws = w1 @ w2"
    "r = trim_nulls (JDict fin)"
proof -
  note eq = assms(1) [unfolded to_as1_dict_steps [OF assms(2)]]
  from eq obtain d2 w0 wr where d2: "lift_err (vocab_fields use_type (dict_get d ''type'')
       (AList.delete ''type'' (AList.delete ''@context'' d))) = (w0, Inr d2)"
    and rest: "bind_log (to_as1_fields d2) (\<lambda>fields.
     bind_log (to_as1_author (get_list d2 ''attributedTo'') fields) (\<lambda>fin.
     return_log (trim_nulls (JDict fin)))) = (wr, Inr r)" and ws: "ws = w0 @ wr"
    by (rule bind_log_InrE)
  from d2 have w0: "w0 = []" and v: "vocab_fields use_type (dict_get d ''type'')
       (AList.delete ''type'' (AList.delete ''@context'' d)) = Inr d2"
    by (simp_all add: lift_err_def)
  from rest obtain w1 F wr' where F: "to_as1_fields d2 = (w1, Inr F)"
    and rest': "bind_log (to_as1_author (get_list d2 ''attributedTo'') F) (\<lambda>fin.
     return_log (trim_nulls (JDict fin))) = (wr', Inr r)" and wr: "wr = w1 @ wr'"
    by (rule bind_log_InrE)
  from rest' obtain w2 fin w3 where fin: "to_as1_author (get_list d2 ''attributedTo'') F = (w2, Inr fin)"
    and r: "return_log (trim_nulls (JDict fin)) = (w3, Inr r)" and wr': "wr' = w2 @ w3"
    by (rule bind_log_InrE)
  from r have "w3 = []" "r = trim_nulls (JDict fin)" by (simp_all add: return_log_def)
  with ws w0 wr wr' have "ws = w1 @ w2" by simp
  from v F fin this \<open>r = trim_nulls (JDict fin)\<close> show thesis by (rule that)
qed

lemma to_as1_author_result:
  assumes "to_as1_author attrib F = (ws, Inr fin)"
  shows "fin = F \<or> (\<exists>au. fin = AList.update ''author'' au F)"
  using assms unfolding to_as1_author_def
  by (cases attrib) (auto simp: return_log_def elim!: bind_log_InrE)

lemma vocab_fields_other:
  assumes "vocab_fields u t d = Inr d2" and "k \<noteq> ''objectType''" and "k \<noteq> ''verb''"
  shows "map_of d2 k = map_of d k"
  using assms
  by (cases u) (auto simp: vocab_fields_def Let_def map_of_update_key
      elim!: bind_err_InrE split: if_splits)

lemma vocab_fields_distinct:
  assumes "vocab_fields u t d = Inr d2" and "distinct (map fst d)"
  shows "distinct (map fst d2)"
  using assms
  by (cases u) (auto simp: vocab_fields_def Let_def distinct_update
      elim!: bind_err_InrE split: if_splits)

lemma vocab_fields_True:
  assumes "vocab_fields True t d = Inr d2"
    and "table_get TYPE_TO_OBJECT_TYPE t = Inr ot"
    and "table_get TYPE_TO_VERB t = Inr vb"
  shows "map_of d2 ''objectType'' =
           Some (if truthy (dict_get d ''inReplyTo'') \<and> (ot = JStr ''note'' \<or> ot = JStr ''article'')
                 then JStr ''comment''
                 else if truthy vb \<and> \<not> truthy ot then JStr ''activity'' else ot)"
    and "map_of d2 ''verb'' = Some vb"
  using assms
  by (auto simp: vocab_fields_def Let_def map_of_update_key split: if_splits)


lemma kept_table_get:
  "table_get tbl key = Inr v \<Longrightarrow> truthy v \<Longrightarrow> kept v = Some v"
  by (auto simp: table_get_def kept_def split: json.splits option.splits)

lemma kept_string [simp]: "s \<noteq> [] \<Longrightarrow> kept (JStr s) = Some (JStr s)"
  by (simp add: kept_def)


section \<open>Properties\<close>

subsection \<open>Round trip of a link\<close>

text \<open>
  C1 (as stated): for the mapping whose only key is \<open>url\<close> with a string value, \<open>from_as1\<close>
  followed by \<open>to_as1\<close> returns that mapping. It fails for the empty string: trimming
  removes the empty \<open>url\<close>, and the round trip returns the empty mapping.
\<close>

theorem link_round_trip_empty_url:
  "to_as1_from_as1 (JDict [(''url'', JStr '''')]) (JStr CONTEXT) = ([], Inr (JDict []))"
  by code_simp


text \<open>
  C1 (amended): for the mapping whose only key is \<open>url\<close> with a non-empty string value,
  \<open>from_as1\<close> (no type hint, any context) followed by \<open>to_as1\<close> returns that mapping; with
  a null context \<open>from_as1\<close> returns the bare string, and \<open>to_as1\<close> of a non-empty string is
  the mapping of \<open>url\<close> to it.
\<close>

theorem link_round_trip:
  "s \<noteq> [] \<Longrightarrow>
     to_as1_from_as1 (JDict [(''url'', JStr s)]) context = ([], Inr (JDict [(''url'', JStr s)])) \<and>
     from_as1 (JDict [(''url'', JStr s)]) JNull JNull = Inr (JStr s) \<and>
     to_as1 (JStr s) use_type = ([], Inr (JDict [(''url'', JStr s)]))"
  by (simp add: to_as1_from_as1_def from_as1_link to_as1_link to_as1_string lift_err_def
      return_log_def)

theorem link_round_trip_witness:
  "''http://x'' \<noteq> [] \<and>
   to_as1_from_as1 (JDict [(''url'', JStr ''http://x'')]) (JStr CONTEXT) =
     ([], Inr (JDict [(''url'', JStr ''http://x'')])) \<and>
   from_as1 (JDict [(''url'', JStr ''http://x'')]) JNull JNull = Inr (JStr ''http://x'') \<and>
   to_as1 (JStr ''http://x'') True = ([], Inr (JDict [(''url'', JStr ''http://x'')]))"
  using link_round_trip [of "''http://x''" "JStr CONTEXT" True] by simp


subsection \<open>The context argument\<close>

text \<open>
  C4: the top-level result carries the context URI the caller passed. The code stores the
  constant \<open>CONTEXT\<close> whatever non-empty context it is given: here the caller passes
  \<^verbatim>\<open>http://example.com/context\<close> and the result carries the ActivityStreams 2 URI.
\<close>

theorem from_as1_context_argument_ignored:
  "from_as1 (JDict [(''displayName'', JStr ''x'')]) JNull (JStr ''http://example.com/context'') =
     Inr (JDict [(''@context'', JStr ''https://www.w3.org/ns/activitystreams''),
                 (''name'', JStr ''x'')])"
  by code_simp


subsection \<open>A single image\<close>

text \<open>
  C7: a single image that is not a list becomes a one-element list in both directions.
  \<open>from_as1\<close> does so (last equation); \<open>to_as1\<close> iterates the value of \<^verbatim>\<open>image\<close> as it
  is, so a single mapping gives one element per key, each the key wrapped as a link, and a
  single string one element per character. A list is converted element by element (third
  equation).
\<close>

theorem to_as1_single_image_iterated:
  "to_as1 (JDict [(''image'', JDict [(''url'', JStr ''http://pic'')])]) True =
     ([], Inr (JDict [(''image'', JList [JDict [(''url'', JStr ''url'')]])])) \<and>
   to_as1 (JDict [(''image'', JStr ''ab'')]) True =
     ([], Inr (JDict [(''image'', JList [JDict [(''url'', JStr ''a'')],
                                         JDict [(''url'', JStr ''b'')]])])) \<and>
   to_as1 (JDict [(''image'', JList [JDict [(''url'', JStr ''http://pic'')]])]) True =
     ([], Inr (JDict [(''image'', JList [JDict [(''url'', JStr ''http://pic'')]])])) \<and>
   from_as1 (JDict [(''image'', JDict [(''url'', JStr ''http://pic'')])]) JNull JNull =
     Inr (JDict [(''image'', JList [JDict [(''url'', JStr ''http://pic''),
                                           (''type'', JStr ''Image'')]])])"
  by code_simp


subsection \<open>Keys of the other dialect\<close>






subsection \<open>Type resolution\<close>




subsection \<open>Vocabulary of an AS1 result\<close>

text \<open>
  C3: \<open>to_as1\<close> with vocabulary population on a mapping whose \<open>type\<close> resolves to
  \<open>object_type\<close> in the first inverse table and to \<open>verb\<close> in the second. If \<^verbatim>\<open>inReplyTo\<close> is
  there (a value Python takes as true) and \<open>object_type\<close> is \<open>note\<close> or \<open>article\<close>, the result
  has \<open>objectType\<close> \<open>comment\<close>. Otherwise, if a verb was resolved and no object type, the
  result has \<open>objectType\<close> \<open>activity\<close> and the verb. The witness holds the two examples of
  the claim, a \<open>Note\<close> with \<^verbatim>\<open>inReplyTo\<close> and a \<open>Like\<close>.
\<close>

theorem to_as1_vocabulary_rules:
  assumes "to_as1 (JDict d) True = (ws, Inr r)" and "distinct (map fst d)"
    and "table_get TYPE_TO_OBJECT_TYPE (dict_get d ''type'') = Inr object_type"
    and "table_get TYPE_TO_VERB (dict_get d ''type'') = Inr verb"
  shows "(truthy (dict_get d ''inReplyTo'') \<and>
          (object_type = JStr ''note'' \<or> object_type = JStr ''article'') \<longrightarrow>
            field r ''objectType'' = Some (JStr ''comment'')) \<and>
         (\<not> (truthy (dict_get d ''inReplyTo'') \<and>
             (object_type = JStr ''note'' \<or> object_type = JStr ''article'')) \<and>
          truthy verb \<and> \<not> truthy object_type \<longrightarrow>
            field r ''objectType'' = Some (JStr ''activity'') \<and> field r ''verb'' = Some verb)"
proof (cases "d = []")
  case True
  with assms(3,4) show ?thesis
    by (auto simp: dict_get_def dict_get_or_def table_get_def)
next
  case False
  with assms(1) obtain d2 w1 F w2 fin where
    v: "vocab_fields True (dict_get d ''type'')
       (AList.delete ''type'' (AList.delete ''@context'' d)) = Inr d2" and
    F: "to_as1_fields d2 = (w1, Inr F)" and
    fin: "to_as1_author (get_list d2 ''attributedTo'') F = (w2, Inr fin)" and
    r: "r = trim_nulls (JDict fin)"
    by (rule to_as1_dict_result)
  from F obtain a at im irt lo ob tg where F': "F = as1_fields d2 a at im irt lo ob tg"
    by (rule to_as1_fields_result)
  from assms(2) have "distinct (map fst (AList.delete ''type'' (AList.delete ''@context'' d)))"
    by (intro distinct_delete)
  with v have "distinct (map fst d2)" by (rule vocab_fields_distinct)
  then have "distinct (map fst F)" unfolding F' by (rule distinct_as1_fields)
  with to_as1_author_result [OF fin] have dist: "distinct (map fst fin)"
    by (auto intro: distinct_update)
  from to_as1_author_result [OF fin] have
    ot: "map_of fin ''objectType'' = map_of d2 ''objectType''" and
    vb: "map_of fin ''verb'' = map_of d2 ''verb''"
    by (auto simp: F' map_of_update_key)
  note vt = vocab_fields_True [OF v assms(3,4)]
  have irt: "dict_get (AList.delete ''type'' (AList.delete ''@context'' d)) ''inReplyTo'' =
      dict_get d ''inReplyTo''"
    by simp
  show ?thesis
  proof (intro conjI impI)
    assume "truthy (dict_get d ''inReplyTo'') \<and>
      (object_type = JStr ''note'' \<or> object_type = JStr ''article'')"
    with vt(1) irt have "map_of fin ''objectType'' = Some (JStr ''comment'')"
      by (simp add: ot)
    then show "field r ''objectType'' = Some (JStr ''comment'')"
      unfolding r field_trim_nulls [OF dist] by simp
  next
    assume a: "\<not> (truthy (dict_get d ''inReplyTo'') \<and>
        (object_type = JStr ''note'' \<or> object_type = JStr ''article'')) \<and>
      truthy verb \<and> \<not> truthy object_type"
    with vt(1) irt have "map_of fin ''objectType'' = Some (JStr ''activity'')"
      by (simp add: ot)
    then show "field r ''objectType'' = Some (JStr ''activity'')"
      unfolding r field_trim_nulls [OF dist] by simp
    from a have "kept verb = Some verb"
      using kept_table_get [OF assms(4)] by simp
    moreover from vt(2) have "map_of fin ''verb'' = Some verb" by (simp add: vb)
    ultimately show "field r ''verb'' = Some verb"
      unfolding r field_trim_nulls [OF dist] by simp
  qed
qed

theorem to_as1_vocabulary_rules_witness:
  "field (JDict [(''inReplyTo'', JList [JDict [(''url'', JStr ''http://orig'')]]),
                 (''objectType'', JStr ''comment'')]) ''objectType'' = Some (JStr ''comment'') \<and>
   field (JDict [(''objectType'', JStr ''activity''), (''verb'', JStr ''like'')]) ''objectType'' =
     Some (JStr ''activity'') \<and>
   field (JDict [(''objectType'', JStr ''activity''), (''verb'', JStr ''like'')]) ''verb'' =
     Some (JStr ''like'') \<and>
   to_as1 (JDict [(''type'', JStr ''Note''), (''inReplyTo'', JList [JStr ''http://orig''])]) True =
     ([], Inr (JDict [(''inReplyTo'', JList [JDict [(''url'', JStr ''http://orig'')]]),
                      (''objectType'', JStr ''comment'')])) \<and>
   to_as1 (JDict [(''type'', JStr ''Like'')]) True =
     ([], Inr (JDict [(''objectType'', JStr ''activity''), (''verb'', JStr ''like'')]))"
proof -
  let ?note = "[(''type'', JStr ''Note''), (''inReplyTo'', JList [JStr ''http://orig''])]"
  let ?like = "[(''type'', JStr ''Like'')]"
  have n: "to_as1 (JDict ?note) True =
     ([], Inr (JDict [(''inReplyTo'', JList [JDict [(''url'', JStr ''http://orig'')]]),
                      (''objectType'', JStr ''comment'')]))"
    by code_simp
  have l: "to_as1 (JDict ?like) True =
     ([], Inr (JDict [(''objectType'', JStr ''activity''), (''verb'', JStr ''like'')]))"
    by code_simp
  have nd: "distinct (map fst ?note)" and ld: "distinct (map fst ?like)" by simp_all
  have n1: "table_get TYPE_TO_OBJECT_TYPE (dict_get ?note ''type'') = Inr (JStr ''note'')"
    by code_simp
  have n2: "table_get TYPE_TO_VERB (dict_get ?note ''type'') = Inr JNull"
    by code_simp
  have l1: "table_get TYPE_TO_OBJECT_TYPE (dict_get ?like ''type'') = Inr JNull"
    by code_simp
  have l2: "table_get TYPE_TO_VERB (dict_get ?like ''type'') = Inr (JStr ''like'')"
    by code_simp
  have tn: "truthy (dict_get ?note ''inReplyTo'')" by code_simp
  from to_as1_vocabulary_rules [OF n nd n1 n2] tn
    to_as1_vocabulary_rules [OF l ld l1 l2] n l
  show ?thesis by simp
qed


subsection \<open>The vocabulary tables\<close>

text \<open>
  C6 (as stated): no two keys of \<open>OBJECT_TYPE_TO_TYPE\<close> and no two keys of \<open>VERB_TO_TYPE\<close>
  share a value, so that inverting loses no entry. The object type table breaks it:
  \<open>comment\<close> and \<open>note\<close> both map to \<open>Note\<close>, the inverse has nine entries for the table's
  ten, and \<open>Note\<close> inverts to \<open>note\<close> only.
\<close>

theorem object_type_table_collision:
  "map_of OBJECT_TYPE_TO_TYPE ''comment'' = Some ''Note'' \<and>
   map_of OBJECT_TYPE_TO_TYPE ''note'' = Some ''Note'' \<and>
   \<not> distinct (map snd OBJECT_TYPE_TO_TYPE) \<and>
   length OBJECT_TYPE_TO_TYPE = 10 \<and>
   length TYPE_TO_OBJECT_TYPE = 9 \<and>
   map_of TYPE_TO_OBJECT_TYPE ''Note'' = Some ''note''"
  by (simp add: OBJECT_TYPE_TO_TYPE_def TYPE_TO_OBJECT_TYPE_def invert_def)

text \<open>
  C6 (amended): the values of \<open>VERB_TO_TYPE\<close> are pairwise different and every entry is
  found again in \<open>TYPE_TO_VERB\<close>; the values of \<open>OBJECT_TYPE_TO_TYPE\<close> without the entry
  of \<open>comment\<close> are pairwise different, and every entry of the table is found again in
  \<open>TYPE_TO_OBJECT_TYPE\<close> except that of \<open>comment\<close>, whose type \<open>Note\<close> inverts to \<open>note\<close>.
\<close>

theorem vocabulary_tables_inverse:
  "distinct (map snd VERB_TO_TYPE) \<and>
   map (\<lambda>kv. map_of TYPE_TO_VERB (snd kv)) VERB_TO_TYPE =
     map (\<lambda>kv. Some (fst kv)) VERB_TO_TYPE \<and>
   distinct (map snd (filter (\<lambda>kv. fst kv \<noteq> ''comment'') OBJECT_TYPE_TO_TYPE)) \<and>
   map (\<lambda>kv. map_of TYPE_TO_OBJECT_TYPE (snd kv)) OBJECT_TYPE_TO_TYPE =
     map (\<lambda>kv. Some (if fst kv = ''comment'' then ''note'' else fst kv)) OBJECT_TYPE_TO_TYPE"
  by (simp add: OBJECT_TYPE_TO_TYPE_def TYPE_TO_OBJECT_TYPE_def
      VERB_TO_TYPE_def TYPE_TO_VERB_def invert_def)


end
